theory Spec2Isabelle
  imports Main
begin

section \<open>The sequential pipeline engine\<close>

text \<open>
  The theory embeds \<^verbatim>\<open>pipeline/base.py\<close> (PipelineStep, Pipeline, PipelineBuilder) and
  \<^verbatim>\<open>helpers/utils.py\<close> (\<^verbatim>\<open>execute_pipeline\<close>). Python exceptions are values of the type
  \<open>error\<close>; a call returns \<open>Inl\<close> of the exception or \<open>Inr\<close> of its value. Everything a step
  can observe or change outside the engine (standard output, the database, module globals)
  is the \<open>world\<close>, passed through every call. The list objects that a builder and the
  pipelines built from it refer to live in an explicit \<open>heap\<close>, since \<^verbatim>\<open>build\<close> passes the
  builder's list object itself to the pipeline.
\<close>

subsection \<open>Values, exceptions and the world\<close>

text \<open>
  The exceptions of the engine's own code paths, and \<open>Raised k\<close> for an exception of class
  \<open>k\<close> coming out of a step's \<^verbatim>\<open>function\<close>:
  \<^item> \<open>AttributeError a\<close>: \<^verbatim>\<open>getattr(module, a)\<close> on a name the module does not have;
  \<^item> \<open>KeyError k\<close>: \<^verbatim>\<open>d[k]\<close> on a dict without the key;
  \<^item> \<open>TypeError_cannot_unpack\<close>: the TypeError of \<^verbatim>\<open>for step, kwargs in ...\<close> on an element
    that is not iterable;
  \<^item> \<open>TypeError_multiple_values\<close>: the TypeError of a call \<^verbatim>\<open>f(x, **m)\<close> where \<^verbatim>\<open>m\<close> has a key
    that names a parameter already bound positionally ("got multiple values for
    argument");
  \<^item> \<open>TypeError_not_iterable\<close>: the TypeError of \<^verbatim>\<open>for step in x\<close> on a value that is not
    iterable;
  \<^item> \<open>TypeError_not_subscriptable\<close>: the TypeError of \<^verbatim>\<open>x['class']\<close> on a value that is not
    a dict (None, a number, a string, a list);
  \<^item> \<open>TypeError_attribute_name\<close>: the TypeError of \<^verbatim>\<open>getattr(module, x)\<close> on a name that is
    not a string;
  \<^item> \<open>TypeError_not_callable\<close>: the TypeError of \<^verbatim>\<open>obj()\<close> on an object that cannot be
    called;
  \<^item> \<open>TypeError_keywords\<close>: the TypeError of \<^verbatim>\<open>f(x, **m)\<close> where \<^verbatim>\<open>m\<close> is not a mapping or has
    a key that is not a string.
\<close>

datatype error =
    AttributeError string
  | KeyError string
  | TypeError_cannot_unpack
  | TypeError_multiple_values
  | TypeError_not_iterable
  | TypeError_not_subscriptable
  | TypeError_attribute_name
  | TypeError_not_callable
  | TypeError_keywords
  | Raised string

text \<open>A parameter with a default value: the caller passes it or leaves it out.\<close>

datatype 'a arg = Omitted | Given 'a

text \<open>
  The data value threaded through a pipeline is \<^verbatim>\<open>Optional[pd.DataFrame]\<close>: \<open>None\<close> is
  Python's \<^verbatim>\<open>None\<close>, the absent value. A keyword-argument dict maps strings to values.
\<close>

type_synonym 'v kwargs = "string \<rightharpoonup> 'v"

record 'w world =
  stdout :: "string list"
  env :: 'w

definition print :: "string \<Rightarrow> 'w world \<Rightarrow> 'w world" where
  "print line w = w\<lparr>stdout := stdout w @ [line]\<rparr>"

subsection \<open>PipelineStep\<close>

text \<open>
  An instance of a concrete subclass of \<^verbatim>\<open>PipelineStep\<close>: the \<^verbatim>\<open>name\<close> set by
  \<^verbatim>\<open>__init__\<close> and the subclass's implementation of the abstract method \<^verbatim>\<open>function\<close>.
  \<open>step_function s data kwargs w\<close> is the call \<^verbatim>\<open>s.function(data, **kwargs)\<close> in world \<open>w\<close>.
\<close>

record ('d, 'v, 'w) PipelineStep =
  name :: string
  step_function :: "'d option \<Rightarrow> 'v kwargs \<Rightarrow> 'w world \<Rightarrow> (error + 'd option) \<times> 'w world"

text \<open>
  \<^verbatim>\<open>def execute(self, data=None, **kwargs)\<close>: print the step's name, then return
  \<^verbatim>\<open>self.function(data, **kwargs)\<close>.
\<close>

definition PipelineStep_execute ::
  "('d, 'v, 'w) PipelineStep \<Rightarrow> 'd option arg \<Rightarrow> 'v kwargs \<Rightarrow> 'w world
     \<Rightarrow> (error + 'd option) \<times> 'w world" where
  "PipelineStep_execute self data_arg kwargs w =
     (let data = (case data_arg of Omitted \<Rightarrow> None | Given d \<Rightarrow> d);
          w1 = print (''Executing step: '' @ name self) w
      in step_function self data kwargs w1)"

text \<open>
  Python binds the keywords of \<^verbatim>\<open>f(x, **m)\<close> against the parameter names of \<^verbatim>\<open>f\<close> before
  the body runs: a key of \<^verbatim>\<open>m\<close> equal to a parameter that already has its positional
  value raises TypeError, and the remaining keys become the \<^verbatim>\<open>**kwargs\<close> dict of the body.
  \<open>params\<close> are the parameters bound positionally at the call.
\<close>

definition bind_keywords :: "string list \<Rightarrow> 'v kwargs \<Rightarrow> error + 'v kwargs" where
  "bind_keywords params m =
     (if list_ex (\<lambda>p. m p \<noteq> None) params then Inl TypeError_multiple_values else Inr m)"

text \<open>The call \<^verbatim>\<open>step.execute(data, **kwargs)\<close> as Pipeline.execute writes it.\<close>

definition call_execute ::
  "('d, 'v, 'w) PipelineStep \<Rightarrow> 'd option \<Rightarrow> 'v kwargs \<Rightarrow> 'w world
     \<Rightarrow> (error + 'd option) \<times> 'w world" where
  "call_execute step data kwargs w =
     (case bind_keywords [''self'', ''data''] kwargs of
        Inl e \<Rightarrow> (Inl e, w)
      | Inr kw \<Rightarrow> PipelineStep_execute step (Given data) kw w)"

subsection \<open>The heap of list objects\<close>

text \<open>
  An element of a \<^verbatim>\<open>steps\<close> list is the tuple \<^verbatim>\<open>(step, kwargs)\<close> that \<^verbatim>\<open>add_step\<close> appends,
  or, as the annotation \<^verbatim>\<open>steps: List[PipelineStep]\<close> of \<^verbatim>\<open>Pipeline.__init__\<close> has it, a
  step object itself. \<^verbatim>\<open>add_step\<close> does not look at its argument: \<open>Foreign kwargs\<close> is the
  tuple \<^verbatim>\<open>(obj, kwargs)\<close> it appends when called with an object that is not a step, one
  without an attribute \<^verbatim>\<open>execute\<close>.
\<close>

datatype ('d, 'v, 'w) item =
    Entry "('d, 'v, 'w) PipelineStep" "'v kwargs"
  | Bare "('d, 'v, 'w) PipelineStep"
  | Foreign "'v kwargs"

type_synonym addr = nat

record ('d, 'v, 'w) heap =
  cells :: "addr \<Rightarrow> ('d, 'v, 'w) item list"
  next_addr :: addr

text \<open>
  A builder and a pipeline each hold one attribute, \<^verbatim>\<open>steps\<close>, a reference to a list
  object. Neither class assigns the attribute again after \<^verbatim>\<open>__init__\<close>, so an object is
  identified by the address it holds.
\<close>

record PipelineBuilder =
  builder_steps :: addr

record Pipeline =
  pipeline_steps :: addr

subsection \<open>Pipeline\<close>

definition Pipeline_init :: "addr \<Rightarrow> Pipeline" where
  "Pipeline_init steps = \<lparr>pipeline_steps = steps\<rparr>"

text \<open>
  The destructuring \<^verbatim>\<open>step, kwargs = element\<close> of the loop header, and the lookup of
  \<^verbatim>\<open>step.execute\<close> that comes first in the loop body: an object that is not a step has no
  such attribute.
\<close>

definition unpack ::
  "('d, 'v, 'w) item \<Rightarrow> error + (('d, 'v, 'w) PipelineStep \<times> 'v kwargs)" where
  "unpack it = (case it of Entry step kwargs \<Rightarrow> Inr (step, kwargs)
                         | Bare _ \<Rightarrow> Inl TypeError_cannot_unpack
                         | Foreign _ \<Rightarrow> Inl (AttributeError ''execute''))"

text \<open>
  The loop \<^verbatim>\<open>for step, kwargs in self.steps: data = step.execute(data, **kwargs)\<close>; an
  exception leaves the loop and the method. Steps act on the world, not on the heap, so
  the list is the same at every iteration.
\<close>

fun execute_loop ::
  "('d, 'v, 'w) item list \<Rightarrow> 'd option \<Rightarrow> 'w world \<Rightarrow> (error + 'd option) \<times> 'w world" where
  "execute_loop [] data w = (Inr data, w)"
| "execute_loop (it # rest) data w =
     (case unpack it of
        Inl e \<Rightarrow> (Inl e, w)
      | Inr (step, kwargs) \<Rightarrow>
          (case call_execute step data kwargs w of
             (Inl e, w') \<Rightarrow> (Inl e, w')
           | (Inr data', w') \<Rightarrow> execute_loop rest data' w'))"

text \<open>\<^verbatim>\<open>def execute(self, initial_data=None)\<close>.\<close>

definition Pipeline_execute ::
  "Pipeline \<Rightarrow> 'd option arg \<Rightarrow> ('d, 'v, 'w) heap \<Rightarrow> 'w world
     \<Rightarrow> (error + 'd option) \<times> 'w world" where
  "Pipeline_execute self initial_data h w =
     (let data = (case initial_data of Omitted \<Rightarrow> None | Given d \<Rightarrow> d)
      in execute_loop (cells h (pipeline_steps self)) data w)"

subsection \<open>PipelineBuilder\<close>

text \<open>\<^verbatim>\<open>self.steps = []\<close>: a new, empty list object.\<close>

definition PipelineBuilder_init :: "('d, 'v, 'w) heap \<Rightarrow> PipelineBuilder \<times> ('d, 'v, 'w) heap" where
  "PipelineBuilder_init h =
     (\<lparr>builder_steps = next_addr h\<rparr>,
      h\<lparr>cells := (cells h)(next_addr h := []), next_addr := Suc (next_addr h)\<rparr>)"

text \<open>
  \<^verbatim>\<open>self.steps.append((step, kwargs)); return self\<close>. Here \<open>kwargs\<close> is the dict the
  body receives.
\<close>

definition add_step ::
  "PipelineBuilder \<Rightarrow> ('d, 'v, 'w) PipelineStep \<Rightarrow> 'v kwargs \<Rightarrow> ('d, 'v, 'w) heap
     \<Rightarrow> PipelineBuilder \<times> ('d, 'v, 'w) heap" where
  "add_step self step kwargs h =
     (self, h\<lparr>cells := (cells h)(builder_steps self :=
                 cells h (builder_steps self) @ [Entry step kwargs])\<rparr>)"

text \<open>\<^verbatim>\<open>return Pipeline(self.steps)\<close>: the pipeline gets the builder's list object.\<close>

definition build :: "PipelineBuilder \<Rightarrow> Pipeline" where
  "build self = Pipeline_init (builder_steps self)"

text \<open>The call \<^verbatim>\<open>builder.add_step(obj, **m)\<close> with an unpacked mapping.\<close>

definition call_add_step ::
  "PipelineBuilder \<Rightarrow> ('d, 'v, 'w) PipelineStep \<Rightarrow> 'v kwargs \<Rightarrow> ('d, 'v, 'w) heap
     \<Rightarrow> error + (PipelineBuilder \<times> ('d, 'v, 'w) heap)" where
  "call_add_step builder step m h =
     (case bind_keywords [''self'', ''step''] m of
        Inl e \<Rightarrow> Inl e
      | Inr kw \<Rightarrow> Inr (add_step builder step kw h))"

subsection \<open>The assembler\<close>

text \<open>
  What \<^verbatim>\<open>obj()\<close> can return: an instance of a concrete step class, which has the
  \<^verbatim>\<open>execute\<close> of \<^verbatim>\<open>PipelineStep\<close>, or an object of another kind (a string, a connection),
  which has no attribute \<^verbatim>\<open>execute\<close>. An object that brings an \<^verbatim>\<open>execute\<close> of its own is
  outside the model.
\<close>

datatype ('d, 'v, 'w) pyobj =
    StepObj "('d, 'v, 'w) PipelineStep"
  | OtherObj

text \<open>
  An attribute of a module: something that can be called without arguments (a class, a
  function), whose call may change the world and raise, or something that cannot be
  called (a string such as \<^verbatim>\<open>__name__\<close>, \<^verbatim>\<open>db_engine = None\<close>, an imported module). A module
  is the namespace of its attributes.
\<close>

datatype ('d, 'v, 'w) attr =
    Callable "'w world \<Rightarrow> (error + ('d, 'v, 'w) pyobj) \<times> 'w world"
  | NotCallable

type_synonym ('d, 'v, 'w) namespace = "string \<rightharpoonup> ('d, 'v, 'w) attr"

text \<open>
  A value of a loaded configuration, as far as the assembler tells values apart: null, a
  string, a mapping whose keys are all strings, or anything else (a number, a boolean, a
  sequence, a mapping with a key that is not a string).
\<close>

datatype 'v config_value =
    CNone
  | CStr string
  | CMapping "'v kwargs"
  | COther

text \<open>
  An element of the configuration section: a dict, of which the assembler reads the
  fields \<^verbatim>\<open>class\<close> and \<^verbatim>\<open>kwargs\<close> (\<open>None\<close> is a field the dict does not have), or a value that
  is not a dict. The section itself is a sequence of elements or a value that cannot be
  iterated (null, a number); iterating a string or a mapping gives elements that are not
  dicts.
\<close>

datatype 'v descriptor =
    Dict "'v config_value option" "'v config_value option"
  | NonDict

datatype 'v config_section =
    Section "'v descriptor list"
  | NotIterable

text \<open>\<^verbatim>\<open>getattr(module, _class)\<close>.\<close>

definition getattr ::
  "('d, 'v, 'w) namespace \<Rightarrow> 'v config_value \<Rightarrow> error + ('d, 'v, 'w) attr" where
  "getattr modul class_value =
     (case class_value of
        CStr class_name \<Rightarrow>
          (case modul class_name of
             None \<Rightarrow> Inl (AttributeError class_name)
           | Some obj \<Rightarrow> Inr obj)
      | _ \<Rightarrow> Inl TypeError_attribute_name)"

text \<open>\<^verbatim>\<open>obj()\<close>.\<close>

definition call ::
  "('d, 'v, 'w) attr \<Rightarrow> 'w world \<Rightarrow> (error + ('d, 'v, 'w) pyobj) \<times> 'w world" where
  "call obj w = (case obj of Callable f \<Rightarrow> f w | NotCallable \<Rightarrow> (Inl TypeError_not_callable, w))"

text \<open>The unpacking \<^verbatim>\<open>**_kwargs\<close> of a configuration value.\<close>

definition unpack_keywords :: "'v config_value \<Rightarrow> error + 'v kwargs" where
  "unpack_keywords v = (case v of CMapping m \<Rightarrow> Inr m | _ \<Rightarrow> Inl TypeError_keywords)"

text \<open>
  \<^verbatim>\<open>add_step\<close> on any object: the body appends the tuple whatever its first component is.
\<close>

definition add_object ::
  "PipelineBuilder \<Rightarrow> ('d, 'v, 'w) pyobj \<Rightarrow> 'v kwargs \<Rightarrow> ('d, 'v, 'w) heap
     \<Rightarrow> PipelineBuilder \<times> ('d, 'v, 'w) heap" where
  "add_object self obj kwargs h =
     (case obj of
        StepObj step \<Rightarrow> add_step self step kwargs h
      | OtherObj \<Rightarrow>
          (self, h\<lparr>cells := (cells h)(builder_steps self :=
                      cells h (builder_steps self) @ [Foreign kwargs])\<rparr>))"

definition call_add_object ::
  "PipelineBuilder \<Rightarrow> ('d, 'v, 'w) pyobj \<Rightarrow> 'v kwargs \<Rightarrow> ('d, 'v, 'w) heap
     \<Rightarrow> error + (PipelineBuilder \<times> ('d, 'v, 'w) heap)" where
  "call_add_object builder obj m h =
     (case bind_keywords [''self'', ''step''] m of
        Inl e \<Rightarrow> Inl e
      | Inr kw \<Rightarrow> Inr (add_object builder obj kw h))"

text \<open>
  The loop \<^verbatim>\<open>for step in config_section\<close>, one element after the other:
  \<^verbatim>\<open>_class = step['class']\<close>, \<^verbatim>\<open>_kwargs = step.get('kwargs', {})\<close>,
  \<^verbatim>\<open>obj = getattr(module, _class)\<close> and \<^verbatim>\<open>builder.add_step(obj(), **_kwargs)\<close>. In the last
  statement Python calls \<^verbatim>\<open>obj()\<close> first, then unpacks \<^verbatim>\<open>_kwargs\<close>, then binds the
  arguments of \<^verbatim>\<open>add_step\<close>. An exception leaves the loop with the world as it is then.
\<close>

fun assemble ::
  "('d, 'v, 'w) namespace \<Rightarrow> 'v descriptor list \<Rightarrow> PipelineBuilder \<Rightarrow> ('d, 'v, 'w) heap
     \<Rightarrow> 'w world \<Rightarrow> (error + ('d, 'v, 'w) heap) \<times> 'w world" where
  "assemble modul [] builder h w = (Inr h, w)"
| "assemble modul (NonDict # rest) builder h w = (Inl TypeError_not_subscriptable, w)"
| "assemble modul (Dict None kwargs_field # rest) builder h w = (Inl (KeyError ''class''), w)"
| "assemble modul (Dict (Some class_value) kwargs_field # rest) builder h w =
     (let kwargs_value = (case kwargs_field of None \<Rightarrow> CMapping Map.empty | Some v \<Rightarrow> v)
      in case getattr modul class_value of
           Inl e \<Rightarrow> (Inl e, w)
         | Inr obj \<Rightarrow>
             (case call obj w of
                (Inl e, w') \<Rightarrow> (Inl e, w')
              | (Inr instance, w') \<Rightarrow>
                  (case unpack_keywords kwargs_value of
                     Inl e \<Rightarrow> (Inl e, w')
                   | Inr m \<Rightarrow>
                       (case call_add_object builder instance m h of
                          Inl e \<Rightarrow> (Inl e, w')
                        | Inr (_, h') \<Rightarrow> assemble modul rest builder h' w'))))"

text \<open>
  \<^verbatim>\<open>execute_pipeline(config_section, module_name)\<close>. \<open>import_module\<close> is
  \<^verbatim>\<open>importlib.import_module\<close>: importing a module runs its code, which may change the world
  (print, connect) and raise; when it returns, it returns the module. The builder, its
  list and the pipeline are local to the call, so the result is the value or exception
  and the world.
\<close>

definition execute_pipeline ::
  "'v config_section \<Rightarrow> string
     \<Rightarrow> (string \<Rightarrow> 'w world \<Rightarrow> (error + ('d, 'v, 'w) namespace) \<times> 'w world)
     \<Rightarrow> ('d, 'v, 'w) heap \<Rightarrow> 'w world
     \<Rightarrow> (error + 'd option) \<times> 'w world" where
  "execute_pipeline config_section module_name import_module h w =
     (case import_module module_name w of
        (Inl e, w0) \<Rightarrow> (Inl e, w0)
      | (Inr modul, w0) \<Rightarrow>
          (let (builder, h0) = PipelineBuilder_init h
           in case config_section of
                NotIterable \<Rightarrow> (Inl TypeError_not_iterable, w0)
              | Section steps \<Rightarrow>
                  (case assemble modul steps builder h0 w0 of
                     (Inl e, w1) \<Rightarrow> (Inl e, w1)
                   | (Inr h1, w1) \<Rightarrow>
                       (let pipeline = build builder
                        in Pipeline_execute pipeline Omitted h1 w1))))"

subsection \<open>The specification's words\<close>

text \<open>
  The algorithm of the specification: a left fold over the entries, replacing the current
  value with \<^verbatim>\<open>step.execute(current, **kwargs)\<close>, the first failure being the result.
\<close>

definition fold_entries ::
  "(('d, 'v, 'w) PipelineStep \<times> 'v kwargs) list \<Rightarrow> 'd option \<Rightarrow> 'w world
     \<Rightarrow> (error + 'd option) \<times> 'w world" where
  "fold_entries entries initial_data w =
     foldl (\<lambda>acc (step, kwargs).
              case acc of
                (Inl e, w') \<Rightarrow> (Inl e, w')
              | (Inr current, w') \<Rightarrow> call_execute step current kwargs w')
           (Inr initial_data, w) entries"

text \<open>Successive \<^verbatim>\<open>add_step\<close> calls on one builder, in the order of the list.\<close>

fun add_steps ::
  "PipelineBuilder \<Rightarrow> (('d, 'v, 'w) PipelineStep \<times> 'v kwargs) list \<Rightarrow> ('d, 'v, 'w) heap
     \<Rightarrow> ('d, 'v, 'w) heap" where
  "add_steps builder [] h = h"
| "add_steps builder ((step, kwargs) # rest) h =
     add_steps (fst (add_step builder step kwargs h)) rest (snd (add_step builder step kwargs h))"

text \<open>
  The two forms of the specification: \<^verbatim>\<open>builder.add_step(a, **ka).add_step(b, **kb).build()\<close>,
  where the second call is on what the first returns, and the two calls on the builder
  itself followed by \<^verbatim>\<open>builder.build()\<close>.
\<close>

definition chained ::
  "PipelineBuilder \<Rightarrow> ('d, 'v, 'w) PipelineStep \<Rightarrow> 'v kwargs \<Rightarrow> ('d, 'v, 'w) PipelineStep \<Rightarrow> 'v kwargs
     \<Rightarrow> ('d, 'v, 'w) heap \<Rightarrow> error + (Pipeline \<times> ('d, 'v, 'w) heap)" where
  "chained builder a ka b kb h =
     (case call_add_step builder a ka h of
        Inl e \<Rightarrow> Inl e
      | Inr (returned, h1) \<Rightarrow>
          (case call_add_step returned b kb h1 of
             Inl e \<Rightarrow> Inl e
           | Inr (returned2, h2) \<Rightarrow> Inr (build returned2, h2)))"

definition separate ::
  "PipelineBuilder \<Rightarrow> ('d, 'v, 'w) PipelineStep \<Rightarrow> 'v kwargs \<Rightarrow> ('d, 'v, 'w) PipelineStep \<Rightarrow> 'v kwargs
     \<Rightarrow> ('d, 'v, 'w) heap \<Rightarrow> error + (Pipeline \<times> ('d, 'v, 'w) heap)" where
  "separate builder a ka b kb h =
     (case call_add_step builder a ka h of
        Inl e \<Rightarrow> Inl e
      | Inr (_, h1) \<Rightarrow>
          (case call_add_step builder b kb h1 of
             Inl e \<Rightarrow> Inl e
           | Inr (_, h2) \<Rightarrow> Inr (build builder, h2)))"

text \<open>
  Step 2 of the specification's algorithm, without the builder: for each descriptor in
  order, look up the named constructor, construct the instance with no argument, and read
  the keyword-argument mapping, an absent field being the empty mapping. \<open>kwargs_of\<close> is the
  mapping of a descriptor when \<^verbatim>\<open>add_step\<close> can take it: the field is absent or a mapping
  with string keys, none of them \<^verbatim>\<open>self\<close> or \<^verbatim>\<open>step\<close>. \<open>construct\<close> gives the pairs of instance
  and mapping and the world after the constructor calls, or \<open>None\<close> when some descriptor
  cannot be resolved so: it is not a dict, its \<^verbatim>\<open>class\<close> is not a string naming a callable
  attribute of the module, the call raises, or \<open>kwargs_of\<close> has no mapping for it.
\<close>

definition kwargs_of :: "'v config_value option \<Rightarrow> 'v kwargs option" where
  "kwargs_of kwargs_field =
     (case kwargs_field of
        None \<Rightarrow> Some Map.empty
      | Some (CMapping m) \<Rightarrow> (if m ''self'' = None \<and> m ''step'' = None then Some m else None)
      | Some _ \<Rightarrow> None)"

fun construct ::
  "('d, 'v, 'w) namespace \<Rightarrow> 'v descriptor list \<Rightarrow> 'w world
     \<Rightarrow> ((('d, 'v, 'w) pyobj \<times> 'v kwargs) list \<times> 'w world) option" where
  "construct modul [] w = Some ([], w)"
| "construct modul (Dict (Some (CStr class_name)) kwargs_field # rest) w =
     (case modul class_name of
        Some (Callable f) \<Rightarrow>
          (case f w of
             (Inr instance, w') \<Rightarrow>
               (case kwargs_of kwargs_field of
                  Some m \<Rightarrow>
                    (case construct modul rest w' of
                       Some (entries, w'') \<Rightarrow> Some ((instance, m) # entries, w'')
                     | None \<Rightarrow> None)
                | None \<Rightarrow> None)
           | (Inl e, w') \<Rightarrow> None)
      | _ \<Rightarrow> None)"
| "construct modul (d # rest) w = None"


subsection \<open>Concrete steps, heap and world\<close>

text \<open>
  Three steps over integer data, with a world that counts the calls of step functions:
  \<^verbatim>\<open>Increment.function(self, data, by=1, **kwargs)\<close> adds \<^verbatim>\<open>by\<close> (to 0 when there is no
  data), \<^verbatim>\<open>Double.function(self, data, **kwargs)\<close> doubles, and
  \<^verbatim>\<open>Failing.function(self, data, **kwargs)\<close> raises ValueError.
\<close>

definition Increment :: "(int, int, nat) PipelineStep" where
  "Increment = \<lparr>name = ''Increment'',
     step_function = (\<lambda>data kwargs w.
       (Inr (Some ((case data of None \<Rightarrow> 0 | Some x \<Rightarrow> x)
                   + (case kwargs ''by'' of None \<Rightarrow> 1 | Some n \<Rightarrow> n))),
        w\<lparr>env := Suc (env w)\<rparr>))\<rparr>"

definition Double :: "(int, int, nat) PipelineStep" where
  "Double = \<lparr>name = ''Double'',
     step_function = (\<lambda>data kwargs w.
       (Inr (Some (2 * (case data of None \<Rightarrow> 0 | Some x \<Rightarrow> x))), w\<lparr>env := Suc (env w)\<rparr>))\<rparr>"

definition Failing :: "(int, int, nat) PipelineStep" where
  "Failing = \<lparr>name = ''Failing'',
     step_function = (\<lambda>data kwargs w. (Inl (Raised ''ValueError''), w\<lparr>env := Suc (env w)\<rparr>))\<rparr>"

text \<open>
  A module with the three step classes and, as \<^verbatim>\<open>helpers/steps.py\<close> has them, the abstract
  class \<^verbatim>\<open>PipelineStep\<close> (its call raises TypeError), the variable \<^verbatim>\<open>db_engine = None\<close> and a
  function that returns a string. \<open>importlib0\<close> knows this module only.
\<close>

definition steps_module :: "(int, int, nat) namespace" where
  "steps_module =
     [''Increment'' \<mapsto> Callable (\<lambda>w. (Inr (StepObj Increment), w)),
      ''Double'' \<mapsto> Callable (\<lambda>w. (Inr (StepObj Double), w)),
      ''Failing'' \<mapsto> Callable (\<lambda>w. (Inr (StepObj Failing), w)),
      ''PipelineStep'' \<mapsto> Callable (\<lambda>w. (Inl (Raised ''TypeError''), w)),
      ''db_engine'' \<mapsto> NotCallable,
      ''get_connection_string'' \<mapsto> Callable (\<lambda>w. (Inr OtherObj, w))]"

definition importlib0 ::
  "string \<Rightarrow> nat world \<Rightarrow> (error + (int, int, nat) namespace) \<times> nat world" where
  "importlib0 module_name w =
     (if module_name = ''steps'' then (Inr steps_module, w)
      else (Inl (Raised ''ModuleNotFoundError''), w))"

definition heap0 :: "(int, int, nat) heap" where
  "heap0 = \<lparr>cells = (\<lambda>_. []), next_addr = 0\<rparr>"

definition world0 :: "nat world" where
  "world0 = \<lparr>stdout = [], env = 0\<rparr>"

text \<open>
  A builder with one step, the heap when \<^verbatim>\<open>build\<close> is called on it, and the heap after
  one more \<^verbatim>\<open>add_step\<close> on the same builder.
\<close>

definition builder1 :: PipelineBuilder where
  "builder1 = fst (PipelineBuilder_init heap0)"

definition heap_at_build :: "(int, int, nat) heap" where
  "heap_at_build = snd (add_step builder1 Increment Map.empty (snd (PipelineBuilder_init heap0)))"

definition heap_later :: "(int, int, nat) heap" where
  "heap_later = snd (add_step builder1 Double Map.empty heap_at_build)"

text \<open>A pipeline of three steps whose second step fails.\<close>

definition pipeline3 :: Pipeline where
  "pipeline3 = build (fst (PipelineBuilder_init heap0))"

definition heap3 :: "(int, int, nat) heap" where
  "heap3 = add_steps (fst (PipelineBuilder_init heap0))
             [(Increment, Map.empty), (Failing, Map.empty), (Double, Map.empty)]
             (snd (PipelineBuilder_init heap0))"

text \<open>
  Configuration sections: one whose classes all resolve, one with an unknown class in
  second place, and one whose first descriptor passes the keyword \<^verbatim>\<open>step\<close>.
\<close>

definition good_config :: "int descriptor list" where
  "good_config = [Dict (Some (CStr ''Increment'')) (Some (CMapping [''by'' \<mapsto> 3])),
                  Dict (Some (CStr ''Double'')) None]"



section \<open>Properties\<close>

lemmas run_defs = unpack_def call_execute_def bind_keywords_def PipelineStep_execute_def
  print_def Increment_def Double_def Failing_def world0_def

subsection \<open>The builder's list\<close>

lemma fst_add_step: "fst (add_step builder step kwargs h) = builder"
  by (simp add: add_step_def)

lemma cells_add_step:
  "cells (snd (add_step builder step kwargs h)) a =
     (if a = builder_steps builder then cells h a @ [Entry step kwargs] else cells h a)"
  by (simp add: add_step_def)

lemma next_addr_add_step: "next_addr (snd (add_step builder step kwargs h)) = next_addr h"
  by (simp add: add_step_def)

lemma cells_add_steps:
  "cells (add_steps builder entries h) a =
     (if a = builder_steps builder
      then cells h a @ map (\<lambda>(step, kwargs). Entry step kwargs) entries
      else cells h a)"
proof (induction entries arbitrary: h)
  case Nil
  show ?case by simp
next
  case (Cons e entries)
  obtain step kwargs where e: "e = (step, kwargs)" by (cases e)
  show ?case
    by (simp add: e Cons.IH fst_add_step cells_add_step)
qed

lemma cells_PipelineBuilder_init:
  "cells (snd (PipelineBuilder_init h)) (builder_steps (fst (PipelineBuilder_init h))) = []"
  by (simp add: PipelineBuilder_init_def)

lemma pipeline_steps_build: "pipeline_steps (build builder) = builder_steps builder"
  by (simp add: build_def Pipeline_init_def)

lemma cells_heap_at_build:
  "cells heap_at_build (builder_steps builder1) = [Entry Increment Map.empty]"
  by (simp add: heap_at_build_def builder1_def cells_add_step cells_PipelineBuilder_init)

lemma cells_heap_later:
  "cells heap_later (builder_steps builder1) = [Entry Increment Map.empty, Entry Double Map.empty]"
  by (simp add: heap_later_def cells_add_step cells_heap_at_build)

lemma cells_heap3:
  "cells heap3 (pipeline_steps pipeline3) =
     [Entry Increment Map.empty, Entry Failing Map.empty, Entry Double Map.empty]"
  by (simp add: heap3_def pipeline3_def pipeline_steps_build cells_add_steps
      cells_PipelineBuilder_init del: add_steps.simps)

subsection \<open>The loop and the fold\<close>

lemma fold_entries_Nil: "fold_entries [] d w = (Inr d, w)"
  by (simp add: fold_entries_def)

lemma foldl_failed:
  "foldl (\<lambda>acc (step, kwargs).
            case acc of (Inl e, w') \<Rightarrow> (Inl e, w')
            | (Inr current, w') \<Rightarrow> call_execute step current kwargs w')
         (Inl e, w) entries = (Inl e, w)"
  by (induction entries) (auto split: prod.splits)

lemma fold_entries_Cons:
  "fold_entries ((step, kwargs) # entries) d w =
     (case call_execute step d kwargs w of
        (Inl e, w') \<Rightarrow> (Inl e, w')
      | (Inr d', w') \<Rightarrow> fold_entries entries d' w')"
proof (cases "call_execute step d kwargs w")
  case (Pair r w')
  then show ?thesis
    by (cases r) (simp_all add: fold_entries_def foldl_failed)
qed

lemma execute_loop_entries:
  "execute_loop (map (\<lambda>(step, kwargs). Entry step kwargs) entries) d w = fold_entries entries d w"
proof (induction entries arbitrary: d w)
  case Nil
  show ?case by (simp add: fold_entries_Nil)
next
  case (Cons e entries)
  obtain step kwargs where e: "e = (step, kwargs)" by (cases e)
  show ?case
    by (simp add: e fold_entries_Cons unpack_def Cons.IH split: prod.splits sum.splits)
qed

lemma execute_loop_append:
  "execute_loop (xs @ ys) d w =
     (case execute_loop xs d w of
        (Inl e, w') \<Rightarrow> (Inl e, w')
      | (Inr d', w') \<Rightarrow> execute_loop ys d' w')"
  by (induction xs arbitrary: d w) (auto split: prod.splits sum.splits)

lemma Pipeline_execute_built:
  "Pipeline_execute (build (fst (PipelineBuilder_init h))) initial_data
     (add_steps (fst (PipelineBuilder_init h)) entries (snd (PipelineBuilder_init h))) w
   = fold_entries entries (case initial_data of Omitted \<Rightarrow> None | Given d \<Rightarrow> d) w"
  by (simp add: Pipeline_execute_def pipeline_steps_build cells_add_steps
      cells_PipelineBuilder_init execute_loop_entries)

lemma run_Increment:
  "execute_loop [Entry Increment Map.empty] (Some 1) world0
     = (Inr (Some 2), \<lparr>stdout = [''Executing step: Increment''], env = 1\<rparr>)"
  by (simp add: run_defs)

lemma run_Increment_Double:
  "execute_loop [Entry Increment Map.empty, Entry Double Map.empty] (Some 1) world0
     = (Inr (Some 4), \<lparr>stdout = [''Executing step: Increment'', ''Executing step: Double''], env = 2\<rparr>)"
  by (simp add: run_defs)

subsection \<open>The assembly loop\<close>

lemma fst_add_object: "fst (add_object builder obj kwargs h) = builder"
  by (cases obj) (simp_all add: add_object_def add_step_def)

lemma assemble_step:
  assumes "modul c = Some (Callable f)" and "f w = (Inr obj, w')" and "kwargs_of kwargs_field = Some m"
  shows "assemble modul (Dict (Some (CStr c)) kwargs_field # rest) builder h w
           = assemble modul rest builder (snd (add_object builder obj m h)) w'"
proof -
  from assms(3) have k: "unpack_keywords (case kwargs_field of None \<Rightarrow> CMapping Map.empty | Some v \<Rightarrow> v) = Inr m"
    and b: "m ''self'' = None \<and> m ''step'' = None"
    by (auto simp: kwargs_of_def unpack_keywords_def split: option.splits config_value.splits if_splits)
  from b have a: "call_add_object builder obj m h = Inr (add_object builder obj m h)"
    by (simp add: call_add_object_def bind_keywords_def)
  show ?thesis
    by (simp add: getattr_def call_def assms(1,2) k a split: prod.splits)
qed

lemma construct_Cons:
  assumes "construct modul (d # rest) w = Some (es, w2)"
  shows "\<exists>c kwargs_field f obj w' m es'.
           d = Dict (Some (CStr c)) kwargs_field \<and> modul c = Some (Callable f)
           \<and> f w = (Inr obj, w') \<and> kwargs_of kwargs_field = Some m
           \<and> construct modul rest w' = Some (es', w2) \<and> es = (obj, m) # es'"
  using assms
  by (cases "(modul, d # rest, w)" rule: construct.cases)
    (auto split: option.splits attr.splits sum.splits prod.splits)


lemma assemble_constructed:
  "construct modul steps w = Some (map (\<lambda>(step, kwargs). (StepObj step, kwargs)) entries, w1) \<Longrightarrow>
     assemble modul steps builder h w = (Inr (add_steps builder entries h), w1)"
proof (induction steps arbitrary: entries h w)
  case Nil
  then show ?case by simp
next
  case (Cons d steps)
  from construct_Cons [OF Cons.prems]
  obtain c' kf f obj w' m es' where d: "d = Dict (Some (CStr c')) kf"
    and f: "modul c' = Some (Callable f)" "f w = (Inr obj, w')" "kwargs_of kf = Some m"
    and rest: "construct modul steps w' = Some (es', w1)"
    and es: "map (\<lambda>(step, kwargs). (StepObj step, kwargs)) entries = (obj, m) # es'"
    by (elim exE conjE) (rule that; assumption)
  from es obtain e entries' where entries: "entries = e # entries'"
    by (cases entries) simp_all
  obtain step k where e: "e = (step, k)"
    by (cases e)
  from es have obj: "obj = StepObj step" and k: "k = m"
    and es': "es' = map (\<lambda>(step, kwargs). (StepObj step, kwargs)) entries'"
    unfolding entries e by simp_all
  have "assemble modul (d # steps) builder h w
          = assemble modul steps builder (snd (add_object builder obj m h)) w'"
    unfolding d by (rule assemble_step [where modul=modul and c=c' and f=f and w=w, OF f])
  also have "\<dots> = (Inr (add_steps builder entries' (snd (add_object builder obj m h))), w1)"
    using rest unfolding es' by (rule Cons.IH)
  also have "add_steps builder entries' (snd (add_object builder obj m h))
          = add_steps builder entries h"
    unfolding entries e k obj by (simp add: add_object_def fst_add_step)
  finally show ?case .
qed



lemma execute_pipeline_imported:
  "import_module module_name w = (Inr modul, w0) \<Longrightarrow>
     execute_pipeline (Section steps) module_name import_module h w =
       (case assemble modul steps (fst (PipelineBuilder_init h)) (snd (PipelineBuilder_init h)) w0 of
          (Inl e, w1) \<Rightarrow> (Inl e, w1)
        | (Inr h1, w1) \<Rightarrow> Pipeline_execute (build (fst (PipelineBuilder_init h))) Omitted h1 w1)"
  by (cases "PipelineBuilder_init h") (simp add: execute_pipeline_def split: sum.splits prod.splits)

lemma construct_length:
  "construct modul steps w = Some (es, w1) \<Longrightarrow> length es = length steps"
proof (induction steps arbitrary: es w)
  case Nil
  then show ?case by simp
next
  case (Cons d steps)
  from construct_Cons [OF Cons.prems]
  obtain c kf f obj w' m es' where "d = Dict (Some (CStr c)) kf"
    and "modul c = Some (Callable f)" and "f w = (Inr obj, w')"
    and rest: "construct modul steps w' = Some (es', w1)"
    and es: "es = (obj, m) # es'"
    by (elim exE conjE) (rule that; assumption)
  from Cons.IH [OF rest] es show ?case by simp
qed

lemma construct_absent_kwargs:
  "construct modul steps w = Some (es, w1) \<Longrightarrow> i < length steps \<Longrightarrow> steps ! i = Dict cls None \<Longrightarrow>
     snd (es ! i) = Map.empty"
proof (induction steps arbitrary: es w i)
  case Nil
  then show ?case by simp
next
  case (Cons d steps)
  from construct_Cons [OF Cons.prems(1)]
  obtain c kf f obj w' m es' where d: "d = Dict (Some (CStr c)) kf"
    and "modul c = Some (Callable f)" and "f w = (Inr obj, w')"
    and m: "kwargs_of kf = Some m"
    and rest: "construct modul steps w' = Some (es', w1)"
    and es: "es = (obj, m) # es'"
    by (elim exE conjE) (rule that; assumption)
  show ?case
  proof (cases i)
    case 0
    with Cons.prems(3) d have "kf = None" by simp
    with m have "m = Map.empty" by (simp add: kwargs_of_def)
    with 0 es show ?thesis by simp
  next
    case (Suc j)
    with Cons.prems(2,3) have "j < length steps" and "steps ! j = Dict cls None"
      by simp_all
    from Cons.IH [OF rest this] Suc es show ?thesis by simp
  qed
qed

lemma import_steps: "importlib0 ''steps'' world0 = (Inr steps_module, world0)"
  by (simp add: importlib0_def)


subsection \<open>The call of the builder's method\<close>

lemma call_add_step_bound:
  "kwargs ''self'' = None \<Longrightarrow> kwargs ''step'' = None \<Longrightarrow>
     call_add_step builder step kwargs h = Inr (add_step builder step kwargs h)"
  by (simp add: call_add_step_def bind_keywords_def)

lemma call_add_step_collision:
  "kwargs ''self'' \<noteq> None \<or> kwargs ''step'' \<noteq> None \<Longrightarrow>
     call_add_step builder step kwargs h = Inl TypeError_multiple_values"
  by (auto simp: call_add_step_def bind_keywords_def)

lemma chained_separate: "chained builder a ka b kb h = separate builder a ka b kb h"
  by (auto simp: chained_def separate_def call_add_step_def add_step_def
      split: sum.splits prod.splits)

subsection \<open>Pipeline.execute\<close>

text \<open>
  C1. A pipeline built from a builder, run on any initial data (\<open>None\<close>, the absent value,
  included), computes the left fold of the specification over the entries in the order of
  the \<^verbatim>\<open>add_step\<close> calls: the current value starts as the initial data, each entry
  replaces it with \<^verbatim>\<open>step.execute(current, **kwargs)\<close>, and the value after the last
  entry is returned. No entry is reordered, dropped or run twice.
\<close>

theorem Pipeline_execute_is_fold:
  "Pipeline_execute (build (fst (PipelineBuilder_init h))) (Given initial_data)
     (add_steps (fst (PipelineBuilder_init h)) entries (snd (PipelineBuilder_init h))) w
   = fold_entries entries initial_data w"
  by (simp add: Pipeline_execute_def pipeline_steps_build cells_add_steps
      cells_PipelineBuilder_init execute_loop_entries)

theorem Pipeline_execute_is_fold_witness:
  "Pipeline_execute (build (fst (PipelineBuilder_init heap0))) (Given (Some 1))
     (add_steps (fst (PipelineBuilder_init heap0))
        [(Increment, [''by'' \<mapsto> 3]), (Double, Map.empty)] (snd (PipelineBuilder_init heap0))) world0
   = (Inr (Some 8), \<lparr>stdout = [''Executing step: Increment'', ''Executing step: Double''], env = 2\<rparr>)"
  using Pipeline_execute_is_fold [of heap0 "Some 1" "[(Increment, [''by'' \<mapsto> 3]), (Double, Map.empty)]" world0]
  by (simp add: fold_entries_def call_execute_def bind_keywords_def PipelineStep_execute_def
      print_def Increment_def Double_def world0_def)

text \<open>
  C3. When the call \<^verbatim>\<open>step.execute(data, **kwargs)\<close> of the entry at position \<open>i\<close> raises \<open>e\<close>,
  the entries before it having run, \<^verbatim>\<open>Pipeline.execute\<close> raises that same \<open>e\<close> and returns no
  value, and the world is the one the failing call left: whatever entries stand after
  position \<open>i\<close>, the outcome is the same, so none of them is invoked.
\<close>

theorem first_failure_aborts:
  assumes "i < length (cells h (pipeline_steps p))"
    and "cells h (pipeline_steps p) ! i = Entry step kwargs"
    and "execute_loop (take i (cells h (pipeline_steps p))) initial_data w = (Inr d, w1)"
    and "call_execute step d kwargs w1 = (Inl e, w2)"
  shows "Pipeline_execute p (Given initial_data) h w = (Inl e, w2)
       \<and> (\<forall>later. execute_loop (take (Suc i) (cells h (pipeline_steps p)) @ later) initial_data w
                    = (Inl e, w2))"
proof -
  let ?items = "cells h (pipeline_steps p)"
  have upto: "take (Suc i) ?items = take i ?items @ [Entry step kwargs]"
    using assms(1,2) by (simp add: take_Suc_conv_app_nth)
  have failed: "execute_loop (take (Suc i) ?items) initial_data w = (Inl e, w2)"
    by (simp add: upto execute_loop_append assms(3,4) unpack_def)
  have any: "execute_loop (take (Suc i) ?items @ later) initial_data w = (Inl e, w2)" for later
    by (simp only: execute_loop_append [of "take (Suc i) ?items"] failed) simp
  have "?items = take (Suc i) ?items @ drop (Suc i) ?items"
    by simp
  then have "execute_loop ?items initial_data w = (Inl e, w2)"
    using any [of "drop (Suc i) ?items"] by simp
  then show ?thesis
    using any by (simp add: Pipeline_execute_def)
qed

theorem first_failure_aborts_witness:
  "Pipeline_execute pipeline3 (Given (Some 1)) heap3 world0
     = (Inl (Raised ''ValueError''),
        \<lparr>stdout = [''Executing step: Increment'', ''Executing step: Failing''], env = 2\<rparr>)
   \<and> execute_loop (take 2 (cells heap3 (pipeline_steps pipeline3)) @ [Entry Double Map.empty, Entry Double Map.empty])
        (Some 1) world0
     = (Inl (Raised ''ValueError''),
        \<lparr>stdout = [''Executing step: Increment'', ''Executing step: Failing''], env = 2\<rparr>)"
proof -
  have a: "(1::nat) < length (cells heap3 (pipeline_steps pipeline3))"
    by (simp add: cells_heap3)
  have b: "cells heap3 (pipeline_steps pipeline3) ! 1 = Entry Failing Map.empty"
    by (simp add: cells_heap3)
  have c: "execute_loop (take 1 (cells heap3 (pipeline_steps pipeline3))) (Some 1) world0
             = (Inr (Some 2), \<lparr>stdout = [''Executing step: Increment''], env = 1\<rparr>)"
    by (simp add: cells_heap3 unpack_def call_execute_def bind_keywords_def
        PipelineStep_execute_def print_def Increment_def world0_def)
  have d: "call_execute Failing (Some 2) Map.empty \<lparr>stdout = [''Executing step: Increment''], env = 1\<rparr>
             = (Inl (Raised ''ValueError''),
                \<lparr>stdout = [''Executing step: Increment'', ''Executing step: Failing''], env = 2\<rparr>)"
    by (simp add: call_execute_def bind_keywords_def PipelineStep_execute_def print_def Failing_def)
  from first_failure_aborts [OF a b c d] show ?thesis
    by (simp add: numeral_2_eq_2)
qed

text \<open>
  C5. A pipeline built from a builder with no entries returns the initial data unchanged,
  whatever it is (\<open>None\<close> included), raises nothing and leaves the world as it was.
\<close>

theorem empty_pipeline_is_identity:
  "Pipeline_execute (build (fst (PipelineBuilder_init h))) (Given x) (snd (PipelineBuilder_init h)) w
     = (Inr x, w)"
  by (simp add: Pipeline_execute_def pipeline_steps_build cells_PipelineBuilder_init)

theorem empty_pipeline_is_identity_witness:
  "Pipeline_execute (build (fst (PipelineBuilder_init heap0))) (Given None)
     (snd (PipelineBuilder_init heap0)) world0 = (Inr (None :: int option), world0)
   \<and> Pipeline_execute (build (fst (PipelineBuilder_init heap0))) (Given (Some 7))
     (snd (PipelineBuilder_init heap0)) world0 = (Inr (Some (7::int)), world0)"
  using empty_pipeline_is_identity [of heap0 "None :: int option" world0]
    empty_pipeline_is_identity [of heap0 "Some (7::int)" world0]
  by simp

subsection \<open>PipelineStep.execute\<close>

text \<open>
  C7. \<^verbatim>\<open>PipelineStep.execute(data, **kwargs)\<close> is the step's \<^verbatim>\<open>function\<close> applied to the same
  data and the same kwargs, in the world that differs from the caller's by one more line
  of output, the step's name, written before the call.
\<close>

theorem PipelineStep_execute_thin_wrapper:
  "PipelineStep_execute self (Given data) kwargs w =
     step_function self data kwargs (w\<lparr>stdout := stdout w @ [''Executing step: '' @ name self]\<rparr>)"
  by (simp add: PipelineStep_execute_def print_def)

theorem PipelineStep_execute_thin_wrapper_witness:
  "PipelineStep_execute Increment (Given (Some 4)) [''by'' \<mapsto> 2] world0 =
     (Inr (Some 6), \<lparr>stdout = [''Executing step: Increment''], env = 1\<rparr>)"
  using PipelineStep_execute_thin_wrapper [of Increment "Some 4" "[''by'' \<mapsto> 2]" world0]
  by (simp add: Increment_def world0_def)

text \<open>
  C10. The data parameter of \<^verbatim>\<open>PipelineStep.execute\<close> and of \<^verbatim>\<open>Pipeline.execute\<close> defaults to
  \<open>None\<close>: leaving the argument out is passing \<open>None\<close>. The first step of a pipeline run
  without initial data is called with \<open>None\<close>, and an empty pipeline run without initial
  data returns \<open>None\<close>.
\<close>

theorem data_defaults_to_None:
  "PipelineStep_execute self Omitted kwargs w = PipelineStep_execute self (Given None) kwargs w
   \<and> Pipeline_execute p Omitted h w = Pipeline_execute p (Given None) h w
   \<and> Pipeline_execute (build (fst (PipelineBuilder_init h))) Omitted
        (add_steps (fst (PipelineBuilder_init h)) ((step, kw) # entries) (snd (PipelineBuilder_init h))) w
       = (case call_execute step None kw w of
            (Inl e, w') \<Rightarrow> (Inl e, w')
          | (Inr d, w') \<Rightarrow> fold_entries entries d w')
   \<and> Pipeline_execute (build (fst (PipelineBuilder_init h))) Omitted (snd (PipelineBuilder_init h)) w
       = (Inr None, w)"
proof -
  have first: "Pipeline_execute (build (fst (PipelineBuilder_init h))) Omitted
        (add_steps (fst (PipelineBuilder_init h)) ((step, kw) # entries) (snd (PipelineBuilder_init h))) w
       = fold_entries ((step, kw) # entries) None w"
    using Pipeline_execute_built [of h Omitted "(step, kw) # entries" w] by simp
  have empty: "Pipeline_execute (build (fst (PipelineBuilder_init h))) Omitted
        (snd (PipelineBuilder_init h)) w = (Inr None, w)"
    by (simp add: Pipeline_execute_def pipeline_steps_build cells_PipelineBuilder_init)
  have step: "PipelineStep_execute self Omitted kwargs w
        = PipelineStep_execute self (Given None) kwargs w"
    by (simp add: PipelineStep_execute_def)
  have pipe: "Pipeline_execute p Omitted h w = Pipeline_execute p (Given None) h w"
    by (simp add: Pipeline_execute_def)
  show ?thesis
    using first empty step pipe by (simp only: fold_entries_Cons)
qed

theorem data_defaults_to_None_witness:
  "PipelineStep_execute Increment Omitted Map.empty world0
       = (Inr (Some 1), \<lparr>stdout = [''Executing step: Increment''], env = 1\<rparr>)
   \<and> PipelineStep_execute Increment (Given None) Map.empty world0
       = (Inr (Some 1), \<lparr>stdout = [''Executing step: Increment''], env = 1\<rparr>)
   \<and> Pipeline_execute (build (fst (PipelineBuilder_init heap0))) Omitted
        (add_steps (fst (PipelineBuilder_init heap0)) ((Increment, Map.empty) # [(Double, Map.empty)])
           (snd (PipelineBuilder_init heap0))) world0
       = (Inr (Some 2), \<lparr>stdout = [''Executing step: Increment'', ''Executing step: Double''], env = 2\<rparr>)
   \<and> Pipeline_execute (build (fst (PipelineBuilder_init heap0))) Omitted
        (snd (PipelineBuilder_init heap0)) world0
       = (Inr (None :: int option), world0)"
proof -
  have g: "PipelineStep_execute Increment (Given None) Map.empty world0
       = (Inr (Some 1), \<lparr>stdout = [''Executing step: Increment''], env = 1\<rparr>)"
    by (simp add: run_defs)
  have c: "call_execute Increment None Map.empty world0
       = (Inr (Some 1), \<lparr>stdout = [''Executing step: Increment''], env = 1\<rparr>)"
    by (simp add: run_defs)
  have f: "fold_entries [(Double, Map.empty)] (Some 1) \<lparr>stdout = [''Executing step: Increment''], env = 1\<rparr>
       = (Inr (Some 2), \<lparr>stdout = [''Executing step: Increment'', ''Executing step: Double''], env = 2\<rparr>)"
    by (simp add: fold_entries_def run_defs)
  from data_defaults_to_None [of Increment Map.empty world0 "build (fst (PipelineBuilder_init heap0))"
      heap0 Increment Map.empty "[(Double, Map.empty)]"]
  show ?thesis
    by (simp only: g c f prod.case sum.case)
qed

subsection \<open>PipelineBuilder\<close>

text \<open>
  C8, as the code has it. For every builder, every step and every keyword mapping with
  neither the key \<^verbatim>\<open>self\<close> nor the key \<^verbatim>\<open>step\<close>, the call of \<^verbatim>\<open>add_step\<close> does not fail, returns
  the builder it was called on and changes the heap in one place only: the builder's list
  gets the one entry \<^verbatim>\<open>(step, kwargs)\<close> at its end. The step is not validated. With a keyword
  named \<^verbatim>\<open>self\<close> or \<^verbatim>\<open>step\<close> the call raises TypeError. The chained form and the form with two
  separate calls have the same outcome for all arguments; when both calls bind, the outcome
  is the pipeline of the builder, whose list has the two entries in call order at its end.
\<close>

theorem add_step_call_appends_and_chains:
  "(kwargs ''self'' = None \<and> kwargs ''step'' = None \<longrightarrow>
      call_add_step builder step kwargs h
        = Inr (builder,
               h\<lparr>cells := (cells h)(builder_steps builder :=
                      cells h (builder_steps builder) @ [Entry step kwargs])\<rparr>))
   \<and> (kwargs ''self'' \<noteq> None \<or> kwargs ''step'' \<noteq> None \<longrightarrow>
        call_add_step builder step kwargs h = Inl TypeError_multiple_values)
   \<and> chained builder a ka b kb h = separate builder a ka b kb h
   \<and> (ka ''self'' = None \<and> ka ''step'' = None \<and> kb ''self'' = None \<and> kb ''step'' = None \<longrightarrow>
        (\<exists>h2. chained builder a ka b kb h = Inr (build builder, h2)
            \<and> cells h2 = (cells h)(builder_steps builder :=
                            cells h (builder_steps builder) @ [Entry a ka, Entry b kb])
            \<and> next_addr h2 = next_addr h))"
proof (intro conjI impI)
  assume "kwargs ''self'' = None \<and> kwargs ''step'' = None"
  then show "call_add_step builder step kwargs h
        = Inr (builder,
               h\<lparr>cells := (cells h)(builder_steps builder :=
                      cells h (builder_steps builder) @ [Entry step kwargs])\<rparr>)"
    by (simp add: call_add_step_bound add_step_def)
next
  assume "kwargs ''self'' \<noteq> None \<or> kwargs ''step'' \<noteq> None"
  then show "call_add_step builder step kwargs h = Inl TypeError_multiple_values"
    by (rule call_add_step_collision)
next
  show "chained builder a ka b kb h = separate builder a ka b kb h"
    by (rule chained_separate)
next
  assume k: "ka ''self'' = None \<and> ka ''step'' = None \<and> kb ''self'' = None \<and> kb ''step'' = None"
  let ?h2 = "snd (add_step builder b kb (snd (add_step builder a ka h)))"
  from k have "chained builder a ka b kb h = Inr (build builder, ?h2)"
    by (simp add: chained_def call_add_step_bound add_step_def)
  moreover have "cells ?h2 = (cells h)(builder_steps builder :=
                            cells h (builder_steps builder) @ [Entry a ka, Entry b kb])"
    by (simp add: add_step_def)
  moreover have "next_addr ?h2 = next_addr h"
    by (simp add: add_step_def)
  ultimately show "\<exists>h2. chained builder a ka b kb h = Inr (build builder, h2)
            \<and> cells h2 = (cells h)(builder_steps builder :=
                            cells h (builder_steps builder) @ [Entry a ka, Entry b kb])
            \<and> next_addr h2 = next_addr h"
    by blast
qed

theorem add_step_call_appends_and_chains_witness:
  "call_add_step builder1 Double [''by'' \<mapsto> 2] heap_at_build
     = Inr (builder1,
            heap_at_build\<lparr>cells := (cells heap_at_build)(builder_steps builder1 :=
               [Entry Increment Map.empty, Entry Double [''by'' \<mapsto> 2]])\<rparr>)
   \<and> call_add_step builder1 Double [''self'' \<mapsto> 2] heap_at_build = Inl TypeError_multiple_values
   \<and> chained builder1 Double Map.empty Failing Map.empty heap_at_build
       = separate builder1 Double Map.empty Failing Map.empty heap_at_build
   \<and> (case chained builder1 Double Map.empty Failing Map.empty heap_at_build of
         Inl e \<Rightarrow> False
       | Inr (pipeline, h2) \<Rightarrow>
           pipeline = build builder1
           \<and> cells h2 (pipeline_steps pipeline)
               = [Entry Increment Map.empty, Entry Double Map.empty, Entry Failing Map.empty])"
proof -
  have ok: "[''by'' \<mapsto> (2::int)] ''self'' = None \<and> [''by'' \<mapsto> (2::int)] ''step'' = None"
    by simp
  have bad: "[''self'' \<mapsto> (2::int)] ''self'' \<noteq> None \<or> [''self'' \<mapsto> (2::int)] ''step'' \<noteq> None"
    by simp
  have both: "(Map.empty :: int kwargs) ''self'' = None \<and> (Map.empty :: int kwargs) ''step'' = None
      \<and> (Map.empty :: int kwargs) ''self'' = None \<and> (Map.empty :: int kwargs) ''step'' = None"
    by simp
  from add_step_call_appends_and_chains [of "[''by'' \<mapsto> 2]" builder1 Double heap_at_build
      Double Map.empty Failing Map.empty] ok both
  have a: "call_add_step builder1 Double [''by'' \<mapsto> 2] heap_at_build
     = Inr (builder1,
            heap_at_build\<lparr>cells := (cells heap_at_build)(builder_steps builder1 :=
               cells heap_at_build (builder_steps builder1) @ [Entry Double [''by'' \<mapsto> 2]])\<rparr>)"
    and c: "chained builder1 Double Map.empty Failing Map.empty heap_at_build
       = separate builder1 Double Map.empty Failing Map.empty heap_at_build"
    and d: "\<exists>h2. chained builder1 Double Map.empty Failing Map.empty heap_at_build
                 = Inr (build builder1, h2)
            \<and> cells h2 = (cells heap_at_build)(builder_steps builder1 :=
                            cells heap_at_build (builder_steps builder1)
                              @ [Entry Double Map.empty, Entry Failing Map.empty])
            \<and> next_addr h2 = next_addr heap_at_build"
    by blast+
  from add_step_call_appends_and_chains [of "[''self'' \<mapsto> 2]" builder1 Double heap_at_build
      Double Map.empty Failing Map.empty] bad
  have b: "call_add_step builder1 Double [''self'' \<mapsto> 2] heap_at_build = Inl TypeError_multiple_values"
    by blast
  from d obtain h2 where d1: "chained builder1 Double Map.empty Failing Map.empty heap_at_build
                 = Inr (build builder1, h2)"
    and d2: "cells h2 = (cells heap_at_build)(builder_steps builder1 :=
                            cells heap_at_build (builder_steps builder1)
                              @ [Entry Double Map.empty, Entry Failing Map.empty])"
    by blast
  have e: "(case chained builder1 Double Map.empty Failing Map.empty heap_at_build of
         Inl e \<Rightarrow> False
       | Inr (pipeline, h2) \<Rightarrow>
           pipeline = build builder1
           \<and> cells h2 (pipeline_steps pipeline)
               = [Entry Increment Map.empty, Entry Double Map.empty, Entry Failing Map.empty])"
    unfolding d1 by (simp add: d2 pipeline_steps_build cells_heap_at_build)
  from a b c e show ?thesis
    by (simp only: cells_heap_at_build append_Cons append_Nil simp_thms)
qed

text \<open>
  C8 as stated fails: \<^verbatim>\<open>builder.add_step(Increment(), step=3)\<close> raises TypeError, since \<^verbatim>\<open>step\<close>
  is already bound to the first argument.
\<close>

theorem add_step_keyword_counterexample:
  "call_add_step builder1 Increment [''step'' \<mapsto> 3] heap_at_build = Inl TypeError_multiple_values"
  by (simp add: call_add_step_def bind_keywords_def)



text \<open>
  C2, as the code has it. \<^verbatim>\<open>build\<close> gives the pipeline the builder's own list object, so
  the two share it: an \<^verbatim>\<open>add_step\<close> on the builder after \<^verbatim>\<open>build\<close> appends its entry to the
  sequence the already built pipeline executes, which is then the entries present at
  \<^verbatim>\<open>build\<close> followed by the entry added later. An \<^verbatim>\<open>add_step\<close> on another builder leaves the
  pipeline's sequence as it was.
\<close>

theorem build_shares_the_list:
  "cells (snd (add_step builder step kwargs h)) (pipeline_steps (build builder))
       = cells h (pipeline_steps (build builder)) @ [Entry step kwargs]
   \<and> Pipeline_execute (build builder) initial_data (snd (add_step builder step kwargs h)) w
       = execute_loop (cells h (builder_steps builder) @ [Entry step kwargs])
           (case initial_data of Omitted \<Rightarrow> None | Given d \<Rightarrow> d) w
   \<and> (builder_steps other \<noteq> builder_steps builder \<longrightarrow>
        cells (snd (add_step other step kwargs h)) (pipeline_steps (build builder))
          = cells h (pipeline_steps (build builder)))"
  by (simp add: Pipeline_execute_def pipeline_steps_build cells_add_step)

theorem build_shares_the_list_witness:
  "cells heap_later (pipeline_steps (build builder1))
       = [Entry Increment Map.empty, Entry Double Map.empty]
   \<and> Pipeline_execute (build builder1) (Given (Some 1)) heap_later world0
       = (Inr (Some 4), \<lparr>stdout = [''Executing step: Increment'', ''Executing step: Double''], env = 2\<rparr>)
   \<and> builder_steps (fst (PipelineBuilder_init heap_at_build)) \<noteq> builder_steps builder1
   \<and> cells (snd (add_step (fst (PipelineBuilder_init heap_at_build)) Double Map.empty heap_at_build))
        (pipeline_steps (build builder1))
       = [Entry Increment Map.empty]"
proof -
  have other: "builder_steps (fst (PipelineBuilder_init heap_at_build)) \<noteq> builder_steps builder1"
    by (simp add: builder1_def heap_at_build_def next_addr_add_step PipelineBuilder_init_def)
  from build_shares_the_list [of builder1 Double Map.empty heap_at_build "Given (Some 1)" world0
      "fst (PipelineBuilder_init heap_at_build)"] other
  show ?thesis
    by (simp add: heap_later_def [symmetric] pipeline_steps_build cells_heap_at_build
        run_Increment_Double del: execute_loop.simps)
qed

text \<open>
  C2 as stated fails. A pipeline is built from a builder holding \<^verbatim>\<open>Increment\<close>; run on 1 it
  returns 2. After \<^verbatim>\<open>add_step(Double)\<close> on the builder, the same pipeline run on 1 calls
  \<^verbatim>\<open>Double\<close> too and returns 4.
\<close>

theorem build_snapshot_counterexample:
  "Pipeline_execute (build builder1) (Given (Some 1)) heap_at_build world0
       = (Inr (Some 2), \<lparr>stdout = [''Executing step: Increment''], env = 1\<rparr>)
   \<and> heap_later = snd (add_step builder1 Double Map.empty heap_at_build)
   \<and> Pipeline_execute (build builder1) (Given (Some 1)) heap_later world0
       = (Inr (Some 4), \<lparr>stdout = [''Executing step: Increment'', ''Executing step: Double''], env = 2\<rparr>)"
  by (simp add: Pipeline_execute_def pipeline_steps_build cells_heap_at_build cells_heap_later
      run_Increment run_Increment_Double heap_later_def [symmetric] del: execute_loop.simps)

subsection \<open>The assembler, end to end\<close>




text \<open>
  C6, as the code has it. Let the import of the module return, and let every element of
  the configuration section be constructed into a step: it is a dict whose \<^verbatim>\<open>class\<close> is a
  string naming a callable attribute of the module, the call returns an instance of a step
  class, and \<^verbatim>\<open>kwargs\<close> is absent or a mapping with string keys other than \<^verbatim>\<open>self\<close> and
  \<^verbatim>\<open>step\<close>. Then \<^verbatim>\<open>execute_pipeline\<close> is: a new builder; for each element in order,
  \<^verbatim>\<open>add_step\<close> of the instance with the element's kwargs, the empty dict when the field is
  absent; \<^verbatim>\<open>build\<close>; \<^verbatim>\<open>execute\<close> with no initial data, in the world the import and the
  constructor calls have left. Its result is that of the pipeline: the fold over these
  entries from \<open>None\<close>, a value or the exception of the first call that fails.
\<close>

theorem execute_pipeline_resolved:
  assumes "import_module module_name w = (Inr modul, w0)"
    and "construct modul steps w0
           = Some (map (\<lambda>(step, kwargs). (StepObj step, kwargs)) entries, w1)"
  shows "execute_pipeline (Section steps) module_name import_module h w
           = Pipeline_execute (build (fst (PipelineBuilder_init h))) Omitted
               (add_steps (fst (PipelineBuilder_init h)) entries (snd (PipelineBuilder_init h))) w1
       \<and> execute_pipeline (Section steps) module_name import_module h w
           = fold_entries entries None w1
       \<and> length entries = length steps
       \<and> (\<forall>i cls. i < length steps \<and> steps ! i = Dict cls None \<longrightarrow> snd (entries ! i) = Map.empty)"
proof (intro conjI allI impI)
  show run: "execute_pipeline (Section steps) module_name import_module h w
           = Pipeline_execute (build (fst (PipelineBuilder_init h))) Omitted
               (add_steps (fst (PipelineBuilder_init h)) entries (snd (PipelineBuilder_init h))) w1"
    by (simp add: execute_pipeline_imported [of import_module "module_name" w modul w0, OF assms(1)] assemble_constructed [OF assms(2)])
  then show "execute_pipeline (Section steps) module_name import_module h w
           = fold_entries entries None w1"
    by (simp add: Pipeline_execute_built)
  from construct_length [OF assms(2)] show len: "length entries = length steps"
    by simp
  fix i cls
  assume i: "i < length steps \<and> steps ! i = Dict cls None"
  with construct_absent_kwargs [OF assms(2), of i cls]
  have "snd (map (\<lambda>(step, kwargs). (StepObj step, kwargs)) entries ! i) = Map.empty"
    by simp
  with i len show "snd (entries ! i) = Map.empty"
    by (simp add: case_prod_beta)
qed

theorem execute_pipeline_resolved_witness:
  "execute_pipeline (Section good_config) ''steps'' importlib0 heap0 world0
     = (Inr (Some 6), \<lparr>stdout = [''Executing step: Increment'', ''Executing step: Double''], env = 2\<rparr>)
   \<and> good_config ! 1 = Dict (Some (CStr ''Double'')) None
   \<and> snd ([(Increment, [''by'' \<mapsto> 3]), (Double, Map.empty)] ! 1) = (Map.empty :: int kwargs)"
proof -
  have c: "construct steps_module good_config world0
             = Some (map (\<lambda>(step, kwargs). (StepObj step, kwargs))
                       [(Increment, [''by'' \<mapsto> 3]), (Double, Map.empty)], world0)"
    by (simp add: good_config_def steps_module_def kwargs_of_def)
  have run: "fold_entries [(Increment, [''by'' \<mapsto> 3]), (Double, Map.empty)] None world0
     = (Inr (Some 6), \<lparr>stdout = [''Executing step: Increment'', ''Executing step: Double''], env = 2\<rparr>)"
    by (simp add: fold_entries_def run_defs)
  have absent: "(1::nat) < length good_config \<and> good_config ! 1 = Dict (Some (CStr ''Double'')) None"
    by (simp add: good_config_def)
  note t = execute_pipeline_resolved [of importlib0 "''steps''" world0 steps_module world0 good_config
      "[(Increment, [''by'' \<mapsto> 3]), (Double, Map.empty)]" world0 heap0, OF import_steps c]
  from t have "execute_pipeline (Section good_config) ''steps'' importlib0 heap0 world0
          = fold_entries [(Increment, [''by'' \<mapsto> 3]), (Double, Map.empty)] None world0"
    by blast
  then have one: "execute_pipeline (Section good_config) ''steps'' importlib0 heap0 world0
     = (Inr (Some 6), \<lparr>stdout = [''Executing step: Increment'', ''Executing step: Double''], env = 2\<rparr>)"
    by (simp only: run)
  from t absent have two: "snd ([(Increment, [''by'' \<mapsto> 3]), (Double, Map.empty)] ! 1) = (Map.empty :: int kwargs)"
    by blast
  from one absent two show ?thesis by blast
qed

text \<open>
  C6 as stated fails. Each section has one element, whose class name resolves. With the
  kwargs \<^verbatim>\<open>{step: 3}\<close> the pipeline of the entry \<^verbatim>\<open>(Increment(), {step: 3})\<close> would return 1, but
  the assembler raises TypeError at \<^verbatim>\<open>builder.add_step(obj(), **_kwargs)\<close>; with a \<^verbatim>\<open>kwargs\<close>
  field that is null it raises TypeError too. \<^verbatim>\<open>PipelineStep\<close> resolves and its call raises,
  so that nothing is appended, built or run.
\<close>

theorem keyword_collision_counterexample:
  "steps_module ''Increment'' = Some (Callable (\<lambda>w. (Inr (StepObj Increment), w)))
   \<and> execute_pipeline (Section [Dict (Some (CStr ''Increment'')) (Some (CMapping [''step'' \<mapsto> 3]))])
        ''steps'' importlib0 heap0 world0
       = (Inl TypeError_multiple_values, world0)
   \<and> fold_entries [(Increment, [''step'' \<mapsto> 3])] None world0
       = (Inr (Some 1), \<lparr>stdout = [''Executing step: Increment''], env = 1\<rparr>)
   \<and> execute_pipeline (Section [Dict (Some (CStr ''Increment'')) (Some CNone)])
        ''steps'' importlib0 heap0 world0
       = (Inl TypeError_keywords, world0)
   \<and> steps_module ''PipelineStep'' \<noteq> None
   \<and> execute_pipeline (Section [Dict (Some (CStr ''PipelineStep'')) None])
        ''steps'' importlib0 heap0 world0
       = (Inl (Raised ''TypeError''), world0)"
  by (simp add: execute_pipeline_def importlib0_def steps_module_def
      PipelineBuilder_init_def heap0_def getattr_def call_def unpack_keywords_def
      call_add_object_def add_object_def bind_keywords_def fold_entries_def call_execute_def
      PipelineStep_execute_def print_def Increment_def world0_def Pipeline_execute_def
      build_def Pipeline_init_def unpack_def)

end
